theory Spec2Isabelle
  imports Complex_Main
begin

section \<open>Data model: the tabular data handled by scripts/rule_based_validation.py\<close>

text \<open>
  The engine works on a pandas DataFrame. The embedding starts from the frame that
  \<^verbatim>\<open>pd.read_csv(file_path, na_values=["", "NA", "N/A", "-"])\<close> hands back: named columns,
  one inferred dtype per column, and rows of cells. A cell that \<^verbatim>\<open>read_csv\<close> recognised as
  one of its missing markers is \<open>NaN\<close>; the marker written by the later
  \<^verbatim>\<open>df.replace(r'^\s*$', pd.NA, regex=True)\<close> is \<open>NA\<close>. Floating-point numbers are
  idealised as reals. The row index of pandas is not modelled: no operation of the
  engine reads it.
\<close>

datatype dtype = Int64 | Float64 | Object | Bool

datatype cell = IntV int | FloatV real | StrV string | BoolV bool | NaN | NA

record frame =
  columns :: "string list"
  rows :: "cell list list"

record dataset = frame +
  dtypes :: "dtype list"

datatype error =
    KeyError string
  | JSONDecodeError
  | TypeError
  | ValueError

text \<open>\<^verbatim>\<open>pd.DataFrame()\<close>: no columns, no rows.\<close>

definition DataFrame :: frame where
  "DataFrame = \<lparr>columns = [], rows = []\<rparr>"

text \<open>\<^verbatim>\<open>df.empty\<close>: some axis has length zero.\<close>

definition empty :: "'a frame_scheme \<Rightarrow> bool" where
  "empty fr = (rows fr = [] \<or> columns fr = [])"

text \<open>\<^verbatim>\<open>len(df)\<close>: the number of rows.\<close>

definition len :: "'a frame_scheme \<Rightarrow> nat" where
  "len fr = length (rows fr)"

text \<open>The cell of a row under a column name; a column the row does not have reads as NaN.\<close>

definition cell_at :: "string list \<Rightarrow> cell list \<Rightarrow> string \<Rightarrow> cell" where
  "cell_at cols r c = (case map_of (zip cols r) c of Some v \<Rightarrow> v | None \<Rightarrow> NaN)"

text \<open>\<^verbatim>\<open>isnull\<close>: both missing markers count.\<close>

fun isnull :: "cell \<Rightarrow> bool" where
  "isnull NaN = True"
| "isnull NA = True"
| "isnull _ = False"

text \<open>The number held by a cell of a numeric column (NaN holds none).\<close>

fun num_of :: "cell \<Rightarrow> real option" where
  "num_of (IntV i) = Some (real_of_int i)"
| "num_of (FloatV x) = Some x"
| "num_of _ = None"

text \<open>\<^verbatim>\<open>df[mask]\<close> with a row predicate as the mask: same columns, the selected rows.\<close>

definition select :: "'a frame_scheme \<Rightarrow> (cell list \<Rightarrow> bool) \<Rightarrow> frame" where
  "select df p = \<lparr>columns = columns df, rows = filter p (rows df)\<rparr>"

text \<open>\<^verbatim>\<open>df[mask]\<close> with a boolean array as the mask.\<close>

definition select_mask :: "'a frame_scheme \<Rightarrow> bool list \<Rightarrow> frame" where
  "select_mask df m = \<lparr>columns = columns df, rows = map fst (filter snd (zip (rows df) m))\<rparr>"

text \<open>
  \<^verbatim>\<open>fr.assign(issue=label)\<close> and \<^verbatim>\<open>fr['issue'] = label\<close>: a column named issue is
  overwritten when the frame has one, appended otherwise.
\<close>

fun set_issue :: "string list \<Rightarrow> cell \<Rightarrow> cell list \<Rightarrow> cell list" where
  "set_issue [] v r = r @ [v]"
| "set_issue (c # cs) v [] = []"
| "set_issue (c # cs) v (x # xs) =
     (if c = ''issue'' then v # xs else x # set_issue cs v xs)"

definition assign_issue :: "string \<Rightarrow> frame \<Rightarrow> frame" where
  "assign_issue label fr =
     \<lparr>columns = (if ''issue'' \<in> set (columns fr) then columns fr else columns fr @ [''issue'']),
      rows = map (set_issue (columns fr) (StrV label)) (rows fr)\<rparr>"

text \<open>
  \<^verbatim>\<open>pd.concat([a, b])\<close>: the columns of a followed by the new columns of b; the rows of a
  followed by the rows of b, each re-indexed on the joint columns with NaN where a
  frame lacks the column.
\<close>

definition reindex :: "string list \<Rightarrow> string list \<Rightarrow> cell list \<Rightarrow> cell list" where
  "reindex old new r = map (cell_at old r) new"

definition concat_frames :: "frame \<Rightarrow> frame \<Rightarrow> frame" where
  "concat_frames a b =
     (let cols = columns a @ filter (\<lambda>c. c \<notin> set (columns a)) (columns b)
      in \<lparr>columns = cols,
          rows = map (reindex (columns a) cols) (rows a) @
                 map (reindex (columns b) cols) (rows b)\<rparr>)"

text \<open>A Python dict as an association list in insertion order; \<^verbatim>\<open>d[k] = v\<close>.\<close>

fun dict_set :: "'k \<Rightarrow> 'v \<Rightarrow> ('k \<times> 'v) list \<Rightarrow> ('k \<times> 'v) list" where
  "dict_set k v [] = [(k, v)]"
| "dict_set k v ((k', v') # d) =
     (if k' = k then (k, v) # d else (k', v') # dict_set k v d)"

section \<open>Normalisation of missing values (line 61)\<close>

text \<open>The whitespace class of the pattern, on the ASCII range.\<close>

definition is_space :: "char \<Rightarrow> bool" where
  "is_space ch = (let n = (of_char ch :: nat) in n = 32 \<or> (9 \<le> n \<and> n \<le> 13) \<or> (28 \<le> n \<and> n \<le> 31))"

fun replace_blank :: "cell \<Rightarrow> cell" where
  "replace_blank (StrV s) = (if list_all is_space s then NA else StrV s)"
| "replace_blank c = c"

definition normalize :: "dataset \<Rightarrow> dataset" where
  "normalize df = df\<lparr>rows := map (map replace_blank) (rows df)\<rparr>"

text \<open>
  What \<^verbatim>\<open>read_csv\<close> makes of the text of a cell in an object column: the markers passed as
  \<^verbatim>\<open>na_values\<close> (line 60) and the default markers of pandas are read as NaN, anything
  else stays text.
\<close>

definition na_values :: "string list" where
  "na_values = ['''', ''NA'', ''N/A'', ''-'']"

definition STR_NA_VALUES :: "string list" where
  "STR_NA_VALUES =
     [''-1.#IND'', ''1.#QNAN'', ''1.#IND'', ''-1.#QNAN'', ''#N/A N/A'', ''#N/A'', ''N/A'',
      ''n/a'', ''NA'', ''<NA>'', ''#NA'', ''NULL'', ''null'', ''NaN'', ''-NaN'', ''nan'',
      ''-nan'', ''None'', '''']"

definition read_text :: "string \<Rightarrow> cell" where
  "read_text s = (if s \<in> set na_values \<union> set STR_NA_VALUES then NaN else StrV s)"

section \<open>The detectors of validate_dataset\<close>

text \<open>Missing values: \<^verbatim>\<open>df[df.isnull().any(axis=1)]\<close>.\<close>

definition missing_rows :: "dataset \<Rightarrow> frame" where
  "missing_rows df = select df (list_ex isnull)"

text \<open>
  \<^verbatim>\<open>df.duplicated()\<close>: a row is marked when an earlier row has the same values in every
  column; missing cells are factorised to one code, so any two of them are equal there.
\<close>

fun dup_key :: "cell \<Rightarrow> cell" where
  "dup_key NA = NaN"
| "dup_key c = c"

fun duplicated_from :: "cell list list \<Rightarrow> cell list list \<Rightarrow> bool list" where
  "duplicated_from seen [] = []"
| "duplicated_from seen (r # rs) =
     (let k = map dup_key r in (k \<in> set seen) # duplicated_from (k # seen) rs)"

definition duplicated :: "'a frame_scheme \<Rightarrow> bool list" where
  "duplicated df = duplicated_from [] (rows df)"

definition duplicates :: "dataset \<Rightarrow> frame" where
  "duplicates df = select_mask df (duplicated df)"

text \<open>\<^verbatim>\<open>df.select_dtypes(include=[...]).columns\<close>.\<close>

definition select_dtypes :: "dtype list \<Rightarrow> dataset \<Rightarrow> string list" where
  "select_dtypes incl df = map fst (filter (\<lambda>(c, t). t \<in> set incl) (zip (columns df) (dtypes df)))"

definition numeric_cols :: "dataset \<Rightarrow> string list" where
  "numeric_cols df = select_dtypes [Int64, Float64] df"

definition cat_cols :: "dataset \<Rightarrow> string list" where
  "cat_cols df = select_dtypes [Object] df"

text \<open>Negative values: \<^verbatim>\<open>df[df[col] < 0]\<close> on a numeric column.\<close>

definition is_negative :: "cell \<Rightarrow> bool" where
  "is_negative c = (case num_of c of Some x \<Rightarrow> x < 0 | None \<Rightarrow> False)"

definition neg :: "dataset \<Rightarrow> string \<Rightarrow> frame" where
  "neg df col = select df (\<lambda>r. is_negative (cell_at (columns df) r col))"

text \<open>
  \<^verbatim>\<open>df[col].mean()\<close> and \<^verbatim>\<open>df[col].std()\<close> skip the missing values; the standard
  deviation is the sample one (divisor n - 1) and both are NaN, here None, when there
  are too few values.
\<close>

definition col_values :: "dataset \<Rightarrow> string \<Rightarrow> real list" where
  "col_values df col = List.map_filter (\<lambda>r. num_of (cell_at (columns df) r col)) (rows df)"

definition mean :: "real list \<Rightarrow> real option" where
  "mean xs = (if xs = [] then None else Some (sum_list xs / real (length xs)))"

definition std :: "real list \<Rightarrow> real option" where
  "std xs =
     (if length xs < 2 then None
      else Some (sqrt (sum_list (map (\<lambda>x. (x - sum_list xs / real (length xs))\<^sup>2) xs)
                       / real (length xs - 1))))"

text \<open>\<^verbatim>\<open>(df[col] > mean + 3*std) | (df[col] < mean - 3*std)\<close>: a comparison with NaN is False.\<close>

definition is_outlier :: "real option \<Rightarrow> real option \<Rightarrow> cell \<Rightarrow> bool" where
  "is_outlier m s c =
     (case (num_of c, m, s) of
        (Some v, Some mu, Some sd) \<Rightarrow> v > mu + 3 * sd \<or> v < mu - 3 * sd
      | _ \<Rightarrow> False)"

definition outliers :: "dataset \<Rightarrow> string \<Rightarrow> frame" where
  "outliers df col =
     select df (\<lambda>r. is_outlier (mean (col_values df col)) (std (col_values df col))
                      (cell_at (columns df) r col))"

text \<open>Invalid categories: \<^verbatim>\<open>df[df[col].isnull()]\<close> on an object column.\<close>

definition invalid_category :: "dataset \<Rightarrow> string \<Rightarrow> frame" where
  "invalid_category df col = select df (\<lambda>r. isnull (cell_at (columns df) r col))"

text \<open>Sequencing of steps that may raise: the first error ends the run.\<close>

definition seq :: "error + 'a \<Rightarrow> ('a \<Rightarrow> error + 'b) \<Rightarrow> error + 'b" where
  "seq x f = (case x of Inl e \<Rightarrow> Inl e | Inr v \<Rightarrow> f v)"

subsection \<open>The unsupervised anomaly detector\<close>

text \<open>
  IsolationForest and LocalOutlierFactor belong to scikit-learn, not to this program:
  they are parameters of the model. An algorithm takes its configuration and the
  numeric matrix and either raises or returns one label per row (-1 marks an outlier).
  The isolation forest draws from the seed given as \<^verbatim>\<open>random_state\<close>, and from the
  process-wide generator when none is given.
\<close>

record sklearn =
  isolation_forest :: "real \<Rightarrow> nat \<Rightarrow> cell list list \<Rightarrow> error + int list"
  local_outlier_factor :: "nat \<Rightarrow> real \<Rightarrow> cell list list \<Rightarrow> error + int list"

record env =
  global_rng :: nat

definition IsolationForest_fit_predict ::
    "sklearn \<Rightarrow> env \<Rightarrow> real \<Rightarrow> nat option \<Rightarrow> frame \<Rightarrow> error + int list" where
  "IsolationForest_fit_predict sk ev contamination random_state X =
     isolation_forest sk contamination
       (case random_state of Some s \<Rightarrow> s | None \<Rightarrow> global_rng ev) (rows X)"

definition LocalOutlierFactor_fit_predict ::
    "sklearn \<Rightarrow> nat \<Rightarrow> real \<Rightarrow> frame \<Rightarrow> error + int list" where
  "LocalOutlierFactor_fit_predict sk n_neighbors contamination X =
     local_outlier_factor sk n_neighbors contamination (rows X)"

text \<open>\<^verbatim>\<open>df[numeric_cols]\<close> and \<^verbatim>\<open>.dropna()\<close>.\<close>

definition project :: "'a frame_scheme \<Rightarrow> string list \<Rightarrow> frame" where
  "project df cols = \<lparr>columns = cols, rows = map (reindex (columns df) cols) (rows df)\<rparr>"

definition dropna :: "frame \<Rightarrow> frame" where
  "dropna fr = select fr (\<lambda>r. \<not> list_ex isnull r)"

definition drop_duplicates :: "frame \<Rightarrow> frame" where
  "drop_duplicates fr = select_mask fr (map Not (duplicated fr))"

definition ml_df :: "dataset \<Rightarrow> frame" where
  "ml_df df = dropna (project df (numeric_cols df))"

text \<open>Lines 105 to 111: the rows either algorithm labels -1, without repeats.\<close>

definition ml_outliers :: "sklearn \<Rightarrow> env \<Rightarrow> dataset \<Rightarrow> error + frame" where
  "ml_outliers sk ev df =
     seq (IsolationForest_fit_predict sk ev (1 / 100) (Some 42) (ml_df df)) (\<lambda>iso_labels.
     seq (LocalOutlierFactor_fit_predict sk 20 (1 / 100) (ml_df df)) (\<lambda>lof_labels.
       Inr (drop_duplicates
              (concat_frames (select_mask (ml_df df) (map (\<lambda>l. l = - 1) iso_labels))
                             (select_mask (ml_df df) (map (\<lambda>l. l = - 1) lof_labels))))))"

subsection \<open>The declarative rules (apply_json_rules)\<close>

text \<open>
  The rule set after \<^verbatim>\<open>json.load\<close>, in the format the program expects: per column an
  object with the optional keys min and max (numbers) and allowed (a list of numbers
  and strings), in the order of the file.
\<close>

datatype json_scalar = JNum real | JStr string

record rule =
  rule_min :: "real option"
  rule_max :: "real option"
  rule_allowed :: "json_scalar list option"

text \<open>
  \<^verbatim>\<open>df[col] < x\<close> and \<^verbatim>\<open>df[col] > x\<close> against a number: a missing cell compares False,
  a text cell raises TypeError.
\<close>

fun cmp_cell :: "(real \<Rightarrow> real \<Rightarrow> bool) \<Rightarrow> cell \<Rightarrow> real \<Rightarrow> error + bool" where
  "cmp_cell ord (IntV i) x = Inr (ord (real_of_int i) x)"
| "cmp_cell ord (FloatV v) x = Inr (ord v x)"
| "cmp_cell ord (BoolV b) x = Inr (ord (if b then 1 else 0) x)"
| "cmp_cell ord (StrV s) x = Inl TypeError"
| "cmp_cell ord NaN x = Inr False"
| "cmp_cell ord NA x = Inr False"

fun cmp_series :: "(real \<Rightarrow> real \<Rightarrow> bool) \<Rightarrow> cell list \<Rightarrow> real \<Rightarrow> error + bool list" where
  "cmp_series ord [] x = Inr []"
| "cmp_series ord (c # cs) x =
     seq (cmp_cell ord c x) (\<lambda>b. seq (cmp_series ord cs x) (\<lambda>bs. Inr (b # bs)))"

text \<open>\<^verbatim>\<open>df[col].isin(allowed)\<close>: equality of values; a missing cell is in no list.\<close>

fun cell_isin :: "json_scalar list \<Rightarrow> cell \<Rightarrow> bool" where
  "cell_isin allowed (IntV i) = (JNum (real_of_int i) \<in> set allowed)"
| "cell_isin allowed (FloatV v) = (JNum v \<in> set allowed)"
| "cell_isin allowed (BoolV b) = (JNum (if b then 1 else 0) \<in> set allowed)"
| "cell_isin allowed (StrV s) = (JStr s \<in> set allowed)"
| "cell_isin allowed NaN = False"
| "cell_isin allowed NA = False"

definition column :: "'a frame_scheme \<Rightarrow> string \<Rightarrow> cell list" where
  "column df col = map (\<lambda>r. cell_at (columns df) r col) (rows df)"

text \<open>
  \<^verbatim>\<open>if not invalid.empty: invalid['issue'] = label; violations = pd.concat([violations, invalid])\<close>
\<close>

definition emit :: "string \<Rightarrow> frame \<Rightarrow> frame \<Rightarrow> frame" where
  "emit label invalid violations =
     (if \<not> empty invalid then concat_frames violations (assign_issue label invalid)
      else violations)"

definition check_min :: "dataset \<Rightarrow> string \<Rightarrow> rule \<Rightarrow> frame \<Rightarrow> error + frame" where
  "check_min df col r violations =
     (case rule_min r of
        None \<Rightarrow> Inr violations
      | Some m \<Rightarrow> seq (cmp_series (<) (column df col) m) (\<lambda>mask.
                    Inr (emit (col @ ''_below_min'') (select_mask df mask) violations)))"

definition check_max :: "dataset \<Rightarrow> string \<Rightarrow> rule \<Rightarrow> frame \<Rightarrow> error + frame" where
  "check_max df col r violations =
     (case rule_max r of
        None \<Rightarrow> Inr violations
      | Some m \<Rightarrow> seq (cmp_series (>) (column df col) m) (\<lambda>mask.
                    Inr (emit (col @ ''_above_max'') (select_mask df mask) violations)))"

definition check_allowed :: "dataset \<Rightarrow> string \<Rightarrow> rule \<Rightarrow> frame \<Rightarrow> error + frame" where
  "check_allowed df col r violations =
     (case rule_allowed r of
        None \<Rightarrow> Inr violations
      | Some allowed \<Rightarrow>
          Inr (emit (col @ ''_invalid_value'')
                 (select df (\<lambda>row. \<not> cell_isin allowed (cell_at (columns df) row col)))
                 violations))"

fun rules_loop :: "dataset \<Rightarrow> (string \<times> rule) list \<Rightarrow> frame \<Rightarrow> error + frame" where
  "rules_loop df [] violations = Inr violations"
| "rules_loop df ((col, r) # rest) violations =
     (if col \<notin> set (columns df) then rules_loop df rest violations
      else seq (check_min df col r violations) (\<lambda>v1.
           seq (check_max df col r v1) (\<lambda>v2.
           seq (check_allowed df col r v2) (\<lambda>v3.
           rules_loop df rest v3))))"

definition apply_json_rules :: "dataset \<Rightarrow> (string \<times> rule) list \<Rightarrow> error + frame" where
  "apply_json_rules df rules = rules_loop df rules DataFrame"

subsection \<open>The report (generate_html_section and lines 126 to 138)\<close>

text \<open>
  A section of the report, without its HTML rendering: the title, the total shown
  when the count is not zero, the rows of the table (at most MAX_DISPLAY_ROWS; none
  stands for the placeholder "No ... found") and the note that more rows exist.
\<close>

definition MAX_DISPLAY_ROWS :: nat where
  "MAX_DISPLAY_ROWS = 5"

record html_section =
  title :: string
  count_info :: "nat option"
  table :: "frame option"
  more_rows_note :: bool

definition generate_html_section :: "string \<Rightarrow> frame \<Rightarrow> nat \<Rightarrow> html_section" where
  "generate_html_section ttl df issue_count =
     (let info = (if issue_count \<noteq> 0 then Some issue_count else None)
      in if empty df
         then \<lparr>title = ttl, count_info = info, table = None, more_rows_note = False\<rparr>
         else \<lparr>title = ttl, count_info = info,
               table = Some (df\<lparr>rows := take MAX_DISPLAY_ROWS (rows df)\<rparr>),
               more_rows_note = (len df > MAX_DISPLAY_ROWS)\<rparr>)"

text \<open>\<^verbatim>\<open>bad_rows['issue']\<close>: KeyError when the frame has no such column.\<close>

definition getitem :: "frame \<Rightarrow> string \<Rightarrow> error + cell list" where
  "getitem fr col = (if col \<in> set (columns fr) then Inr (column fr col) else Inl (KeyError col))"

text \<open>\<^verbatim>\<open>.str.contains(pat)\<close> for a pattern without special characters: a substring test.\<close>

fun contains :: "string \<Rightarrow> string \<Rightarrow> bool" where
  "contains pat [] = (pat = [])"
| "contains pat (c # cs) = (take (length pat) (c # cs) = pat \<or> contains pat cs)"

fun str_contains :: "string \<Rightarrow> cell \<Rightarrow> bool" where
  "str_contains pat (StrV s) = contains pat s"
| "str_contains pat _ = False"

definition section_by :: "string \<Rightarrow> frame \<Rightarrow> (cell \<Rightarrow> bool) \<Rightarrow> error + html_section" where
  "section_by ttl bad_rows p =
     seq (getitem bad_rows ''issue'') (\<lambda>issue.
       Inr (generate_html_section ttl (select_mask bad_rows (map p issue))
              (length (filter p issue))))"

definition build_report :: "frame \<Rightarrow> frame \<Rightarrow> frame \<Rightarrow> frame \<Rightarrow> error + html_section list" where
  "build_report missing dups bad_rows json_rows =
     seq (section_by ''Negative Values'' bad_rows (str_contains ''_negative'')) (\<lambda>s3.
     seq (section_by ''Outliers'' bad_rows (str_contains ''_outlier'')) (\<lambda>s4.
     seq (section_by ''Invalid Categories'' bad_rows (str_contains ''_invalid_category'')) (\<lambda>s5.
     seq (section_by ''ML Anomalies'' bad_rows (\<lambda>c. c = StrV ''ML_anomaly'')) (\<lambda>s6.
       Inr [generate_html_section ''Missing Values'' missing (len missing),
            generate_html_section ''Duplicate Rows'' dups (len dups),
            s3, s4, s5, s6,
            generate_html_section ''JSON Rule Violations'' json_rows (len json_rows)]))))"

section \<open>validate_dataset\<close>

text \<open>The two accumulators of the run.\<close>

record state =
  bad_rows :: frame
  issues_summary :: "(string \<times> nat) list"

text \<open>
  \<^verbatim>\<open>if not found.empty: issues_summary[key] = len(found);
  bad_rows = pd.concat([bad_rows, found.assign(issue=label)])\<close>
\<close>

definition flag :: "string \<Rightarrow> string \<Rightarrow> frame \<Rightarrow> state \<Rightarrow> state" where
  "flag key label found st =
     (if \<not> empty found
      then \<lparr>bad_rows = concat_frames (bad_rows st) (assign_issue label found),
            issues_summary = dict_set key (len found) (issues_summary st)\<rparr>
      else st)"

definition missing_step :: "dataset \<Rightarrow> state \<Rightarrow> state" where
  "missing_step df = flag ''Missing Values'' ''missing'' (missing_rows df)"

definition duplicate_step :: "dataset \<Rightarrow> state \<Rightarrow> state" where
  "duplicate_step df = flag ''Duplicate Rows'' ''duplicate'' (duplicates df)"

definition negative_step :: "dataset \<Rightarrow> string \<Rightarrow> state \<Rightarrow> state" where
  "negative_step df col =
     flag (''Negative Values ('' @ col @ '')'') (col @ ''_negative'') (neg df col)"

definition outlier_step :: "dataset \<Rightarrow> string \<Rightarrow> state \<Rightarrow> state" where
  "outlier_step df col =
     flag (''Outliers ('' @ col @ '')'') (col @ ''_outlier'') (outliers df col)"

definition category_step :: "dataset \<Rightarrow> string \<Rightarrow> state \<Rightarrow> state" where
  "category_step df col =
     flag (''Invalid Categories ('' @ col @ '')'') (col @ ''_invalid_category'')
       (invalid_category df col)"

text \<open>Lines 101 to 114. Nothing catches what the algorithms raise.\<close>

definition ml_step :: "sklearn \<Rightarrow> env \<Rightarrow> dataset \<Rightarrow> state \<Rightarrow> error + state" where
  "ml_step sk ev df st =
     (if length (numeric_cols df) > 0 \<and> \<not> empty (ml_df df)
      then seq (ml_outliers sk ev df) (\<lambda>found.
             Inr (flag ''ML Anomalies'' ''ML_anomaly'' found st))
      else Inr st)"

text \<open>
  Lines 116 to 124. What validate_dataset is given for the rules: no path, the path
  of a file that does not exist, a file that \<^verbatim>\<open>json.load\<close> rejects, or a file holding a
  rule set.
\<close>

datatype rules_source =
    NoPath
  | NotFound
  | Malformed
  | Loaded "(string \<times> rule) list"

fun json_load :: "rules_source \<Rightarrow> error + (string \<times> rule) list" where
  "json_load (Loaded rules) = Inr rules"
| "json_load _ = Inl JSONDecodeError"

fun path_exists :: "rules_source \<Rightarrow> bool" where
  "path_exists NoPath = False"
| "path_exists NotFound = False"
| "path_exists _ = True"

definition json_step :: "dataset \<Rightarrow> rules_source \<Rightarrow> state \<Rightarrow> error + frame \<times> state" where
  "json_step df src st =
     (if src \<noteq> NoPath \<and> path_exists src
      then seq (json_load src) (\<lambda>rules.
           seq (apply_json_rules df rules) (\<lambda>json_rows.
             Inr (json_rows,
                  if \<not> empty json_rows
                  then \<lparr>bad_rows = concat_frames (bad_rows st) json_rows,
                        issues_summary =
                          dict_set ''JSON Rule Violations'' (len json_rows) (issues_summary st)\<rparr>
                  else st)))
      else Inr (DataFrame, st))"

text \<open>The detectors that cannot raise, in the order of the source (lines 62 to 99).\<close>

definition rule_based :: "dataset \<Rightarrow> state" where
  "rule_based df =
     fold (category_step df) (cat_cols df)
       (fold (outlier_step df) (numeric_cols df)
         (fold (negative_step df) (numeric_cols df)
           (duplicate_step df
             (missing_step df \<lparr>bad_rows = DataFrame, issues_summary = []\<rparr>))))"

definition validate_dataset ::
    "sklearn \<Rightarrow> env \<Rightarrow> dataset \<Rightarrow> rules_source
       \<Rightarrow> error + frame \<times> html_section list \<times> (string \<times> nat) list" where
  "validate_dataset sk ev file src =
     (let df = normalize file
      in seq (ml_step sk ev df (rule_based df)) (\<lambda>st.
         seq (json_step df src st) (\<lambda>(json_rows, st').
         seq (build_report (missing_rows df) (duplicates df) (bad_rows st') json_rows) (\<lambda>report.
           Inr (bad_rows st', report, issues_summary st')))))"

section \<open>Notions of the specification\<close>

text \<open>
  Two rows are identical for the duplicate detector when they agree in every column,
  a missing cell agreeing with a missing cell.
\<close>

definition same_row :: "cell list \<Rightarrow> cell list \<Rightarrow> bool" where
  "same_row a b = (map dup_key a = map dup_key b)"

text \<open>The source markers of a missing cell named by the specification.\<close>

definition is_marker :: "string \<Rightarrow> bool" where
  "is_marker s = (s = '''' \<or> s = ''NA'' \<or> s = ''N/A'' \<or> s = ''-'' \<or> list_all is_space s)"

text \<open>A cell of the frame read from the file that normalisation treats as missing.\<close>

fun written_missing :: "cell \<Rightarrow> bool" where
  "written_missing NaN = True"
| "written_missing NA = True"
| "written_missing (StrV s) = list_all is_space s"
| "written_missing _ = False"

text \<open>Two cells agree: both written as missing, or both present and equal.\<close>

definition agree :: "cell \<Rightarrow> cell \<Rightarrow> bool" where
  "agree a b = ((written_missing a \<and> written_missing b) \<or>
                (\<not> written_missing a \<and> \<not> written_missing b \<and> a = b))"

text \<open>
  No detector flags a row of the dataset: each of the frames the detectors select is
  empty, the anomaly detector is skipped or finds nothing, and the rules are absent or
  find nothing.
\<close>

definition nothing_flagged :: "sklearn \<Rightarrow> env \<Rightarrow> dataset \<Rightarrow> rules_source \<Rightarrow> bool" where
  "nothing_flagged sk ev df src =
     (empty (missing_rows df) \<and> empty (duplicates df) \<and>
      list_all (\<lambda>c. empty (neg df c) \<and> empty (outliers df c)) (numeric_cols df) \<and>
      list_all (\<lambda>c. empty (invalid_category df c)) (cat_cols df) \<and>
      (numeric_cols df = [] \<or> empty (ml_df df) \<or>
         (case ml_outliers sk ev df of Inr found \<Rightarrow> empty found | Inl e \<Rightarrow> False)) \<and>
      (case src of
         Loaded rules \<Rightarrow>
           (case apply_json_rules df rules of Inr v \<Rightarrow> empty v | Inl e \<Rightarrow> False)
       | Malformed \<Rightarrow> False
       | _ \<Rightarrow> True))"

text \<open>
  The categories of Issue Counts in the order fixed by the specification, each with
  its count: the number of rows the detector of the category selects (none when the
  detector does not run).
\<close>

definition ml_count :: "sklearn \<Rightarrow> env \<Rightarrow> dataset \<Rightarrow> nat" where
  "ml_count sk ev df =
     (if numeric_cols df \<noteq> [] \<and> \<not> empty (ml_df df)
      then (case ml_outliers sk ev df of Inr found \<Rightarrow> len found | Inl e \<Rightarrow> 0)
      else 0)"

definition json_count :: "dataset \<Rightarrow> rules_source \<Rightarrow> nat" where
  "json_count df src =
     (case src of
        Loaded rules \<Rightarrow> (case apply_json_rules df rules of Inr v \<Rightarrow> len v | Inl e \<Rightarrow> 0)
      | _ \<Rightarrow> 0)"

definition category_counts ::
    "sklearn \<Rightarrow> env \<Rightarrow> dataset \<Rightarrow> rules_source \<Rightarrow> (string \<times> nat) list" where
  "category_counts sk ev df src =
     [(''Missing Values'', len (missing_rows df)), (''Duplicate Rows'', len (duplicates df))] @
     map (\<lambda>c. (''Negative Values ('' @ c @ '')'', len (neg df c))) (numeric_cols df) @
     map (\<lambda>c. (''Outliers ('' @ c @ '')'', len (outliers df c))) (numeric_cols df) @
     map (\<lambda>c. (''Invalid Categories ('' @ c @ '')'', len (invalid_category df c))) (cat_cols df) @
     [(''ML Anomalies'', ml_count sk ev df), (''JSON Rule Violations'', json_count df src)]"

text \<open>
  A row read as a mapping from column names to cells, and the rows of a frame read so.
  A frame is well formed when each of its rows has one cell per column.
\<close>

definition view_list :: "'a frame_scheme \<Rightarrow> (string \<Rightarrow> cell) list" where
  "view_list fr = map (cell_at (columns fr)) (rows fr)"

definition views :: "'a frame_scheme \<Rightarrow> (string \<Rightarrow> cell) set" where
  "views fr = set (view_list fr)"

definition row_lengths :: "'a frame_scheme \<Rightarrow> bool" where
  "row_lengths fr = (\<forall>r\<in>set (rows fr). length r = length (columns fr))"




text \<open>
  The rule semantics of the specification. The value of a cell as a number (a Boolean
  counts as 0 or 1), the three violations, and the violations of a rule set in order:
  for each rule whose column the dataset has, the rows below the minimum, then the rows
  above the maximum, then the rows outside the allowed list, each row with its label.
\<close>

fun value_of :: "cell \<Rightarrow> real option" where
  "value_of (IntV i) = Some (real_of_int i)"
| "value_of (FloatV x) = Some x"
| "value_of (BoolV b) = Some (if b then 1 else 0)"
| "value_of _ = None"

definition below :: "real \<Rightarrow> cell \<Rightarrow> bool" where
  "below m c = (case value_of c of Some x \<Rightarrow> x < m | None \<Rightarrow> False)"

definition above :: "real \<Rightarrow> cell \<Rightarrow> bool" where
  "above m c = (case value_of c of Some x \<Rightarrow> x > m | None \<Rightarrow> False)"

definition member_of :: "json_scalar list \<Rightarrow> cell \<Rightarrow> bool" where
  "member_of allowed c =
     (case c of StrV s \<Rightarrow> JStr s \<in> set allowed
      | _ \<Rightarrow> (case value_of c of Some x \<Rightarrow> JNum x \<in> set allowed | None \<Rightarrow> False))"

definition violations_of :: "dataset \<Rightarrow> string \<Rightarrow> rule \<Rightarrow> (cell list \<times> string) list" where
  "violations_of df col r =
     (case rule_min r of None \<Rightarrow> []
      | Some m \<Rightarrow> map (\<lambda>row. (row, col @ ''_below_min''))
                    (filter (\<lambda>row. below m (cell_at (columns df) row col)) (rows df))) @
     (case rule_max r of None \<Rightarrow> []
      | Some m \<Rightarrow> map (\<lambda>row. (row, col @ ''_above_max''))
                    (filter (\<lambda>row. above m (cell_at (columns df) row col)) (rows df))) @
     (case rule_allowed r of None \<Rightarrow> []
      | Some allowed \<Rightarrow> map (\<lambda>row. (row, col @ ''_invalid_value''))
                    (filter (\<lambda>row. \<not> member_of allowed (cell_at (columns df) row col)) (rows df)))"

definition expected_violations ::
    "dataset \<Rightarrow> (string \<times> rule) list \<Rightarrow> (cell list \<times> string) list" where
  "expected_violations df rules =
     concat (map (\<lambda>(col, r). if col \<in> set (columns df) then violations_of df col r else [])
               rules)"

text \<open>The columns under a min or max rule hold no text, so every comparison is defined.\<close>

fun is_text :: "cell \<Rightarrow> bool" where
  "is_text (StrV s) = True"
| "is_text _ = False"

definition comparable :: "dataset \<Rightarrow> (string \<times> rule) list \<Rightarrow> bool" where
  "comparable df rules =
     list_all (\<lambda>(col, r). col \<notin> set (columns df) \<or> (rule_min r = None \<and> rule_max r = None) \<or>
                          \<not> list_ex is_text (column df col)) rules"

text \<open>A row of the dataset with its issue label, read as a flagged row.\<close>

definition labelled :: "dataset \<Rightarrow> cell list \<times> string \<Rightarrow> string \<Rightarrow> cell" where
  "labelled df = (\<lambda>(row, l). (cell_at (columns df) row)(''issue'' := StrV l))"

text \<open>The rule set and the prices of the example in the specification.\<close>

definition price_rule :: "(string \<times> rule) list" where
  "price_rule = [(''price'', \<lparr>rule_min = Some 0, rule_max = Some 1000, rule_allowed = None\<rparr>)]"

section \<open>Inputs used in the examples\<close>

text \<open>
  Stand-ins for the two scikit-learn algorithms: one pair that labels every row as an
  inlier, one whose isolation forest labels the first row of the matrix -1, and one
  whose local-outlier scorer cannot run on fewer than two rows (it raises ValueError,
  as the neighbour query of scikit-learn does on a single sample).
\<close>

definition all_inliers :: "cell list list \<Rightarrow> error + int list" where
  "all_inliers X = Inr (map (\<lambda>r. 1) X)"

definition first_outlier :: "cell list list \<Rightarrow> error + int list" where
  "first_outlier X = Inr (case X of [] \<Rightarrow> [] | r # rs \<Rightarrow> - 1 # map (\<lambda>r. 1) rs)"

definition sk_quiet :: sklearn where
  "sk_quiet = \<lparr>isolation_forest = (\<lambda>c s. all_inliers),
               local_outlier_factor = (\<lambda>k c. all_inliers)\<rparr>"

definition sk_first :: sklearn where
  "sk_first = \<lparr>isolation_forest = (\<lambda>c s. first_outlier),
               local_outlier_factor = (\<lambda>k c. all_inliers)\<rparr>"

definition sk_small :: sklearn where
  "sk_small = \<lparr>isolation_forest = (\<lambda>c s. all_inliers),
               local_outlier_factor =
                 (\<lambda>k c X. if length X < 2 then Inl ValueError else all_inliers X)\<rparr>"

definition ev0 :: env where
  "ev0 = \<lparr>global_rng = 0\<rparr>"

text \<open>A clean dataset of two text rows.\<close>

definition clean_names :: dataset where
  "clean_names = \<lparr>columns = [''name''], rows = [[StrV ''ann''], [StrV ''bob'']],
                  dtypes = [Object]\<rparr>"

text \<open>A dataset with a single row.\<close>

definition one_row :: dataset where
  "one_row = \<lparr>columns = [''name'', ''x''], rows = [[StrV ''ann'', IntV 1]],
              dtypes = [Object, Int64]\<rparr>"

text \<open>A dataset with one missing cell in a text column.\<close>

definition with_gap :: dataset where
  "with_gap = \<lparr>columns = [''name'', ''city''],
               rows = [[StrV ''ann'', NaN], [StrV ''bob'', StrV ''rome'']],
               dtypes = [Object, Object]\<rparr>"


text \<open>The three prices of the example, and a dataset with text, numbers and an empty row.\<close>

definition prices :: dataset where
  "prices = \<lparr>columns = [''price''], rows = [[IntV (- 5)], [IntV 500], [IntV 2000]],
             dtypes = [Int64]\<rparr>"



section \<open>The duplicate-row detector\<close>

lemma length_duplicated_from: "length (duplicated_from seen rs) = length rs"
  by (induction rs arbitrary: seen) (simp_all add: Let_def)

lemma duplicated_from_nth:
  "i < length rs \<Longrightarrow>
     duplicated_from seen rs ! i =
       (map dup_key (rs ! i) \<in> set seen \<or> (\<exists>j<i. map dup_key (rs ! j) = map dup_key (rs ! i)))"
proof (induction rs arbitrary: seen i)
  case Nil
  then show ?case by simp
next
  case (Cons r rs)
  show ?case
  proof (cases i)
    case 0
    then show ?thesis by (simp add: Let_def)
  next
    case (Suc k)
    with Cons.prems have k: "k < length rs" by simp
    have "(\<exists>j<Suc k. map dup_key ((r # rs) ! j) = map dup_key (rs ! k)) =
          (map dup_key r = map dup_key (rs ! k) \<or> (\<exists>j<k. map dup_key (rs ! j) = map dup_key (rs ! k)))"
      by (auto simp: less_Suc_eq_0_disj)
    with Cons.IH [OF k, of "map dup_key r # seen"] Suc show ?thesis
      by (auto simp: Let_def)
  qed
qed

lemma duplicated_nth:
  "i < length (rows df) \<Longrightarrow>
     duplicated df ! i = (\<exists>j<i. same_row (rows df ! j) (rows df ! i))"
  by (simp add: duplicated_def duplicated_from_nth same_row_def)

lemma length_duplicated: "length (duplicated df) = length (rows df)"
  by (simp add: duplicated_def length_duplicated_from)

lemma dup_key_normalized:
  "agree a b \<Longrightarrow> dup_key (replace_blank a) = dup_key (replace_blank b)"
  by (cases a; cases b) (auto simp: agree_def)

lemma same_row_normalized:
  "list_all2 agree r1 r2 \<Longrightarrow> same_row (map replace_blank r1) (map replace_blank r2)"
  unfolding same_row_def
  by (induction rule: list_all2_induct) (simp_all add: dup_key_normalized)

lemma marker_is_missing: "is_marker s \<Longrightarrow> written_missing (read_text s)"
  by (auto simp: is_marker_def read_text_def na_values_def)

section \<open>The run as a whole\<close>

lemma flag_empty: "empty found \<Longrightarrow> flag key label found st = st"
  by (simp add: flag_def)

lemma fold_unchanged: "(\<And>c. c \<in> set cs \<Longrightarrow> f c st = st) \<Longrightarrow> fold f cs st = st"
  by (induction cs) simp_all

lemma rule_based_nothing:
  assumes "empty (missing_rows df)" "empty (duplicates df)"
    and "list_all (\<lambda>c. empty (neg df c) \<and> empty (outliers df c)) (numeric_cols df)"
    and "list_all (\<lambda>c. empty (invalid_category df c)) (cat_cols df)"
  shows "rule_based df = \<lparr>bad_rows = DataFrame, issues_summary = []\<rparr>"
proof -
  let ?s = "\<lparr>bad_rows = DataFrame, issues_summary = []\<rparr>"
  have 1: "duplicate_step df (missing_step df ?s) = ?s"
    using assms(1,2) by (simp add: duplicate_step_def missing_step_def flag_empty)
  have 2: "fold (negative_step df) (numeric_cols df) ?s = ?s"
    using assms(3) by (intro fold_unchanged) (simp add: negative_step_def flag_empty list_all_iff)
  have 3: "fold (outlier_step df) (numeric_cols df) ?s = ?s"
    using assms(3) by (intro fold_unchanged) (simp add: outlier_step_def flag_empty list_all_iff)
  have 4: "fold (category_step df) (cat_cols df) ?s = ?s"
    using assms(4) by (intro fold_unchanged) (simp add: category_step_def flag_empty list_all_iff)
  show ?thesis by (simp add: rule_based_def 1 2 3 4)
qed

lemma build_report_KeyError:
  "''issue'' \<notin> set (columns b) \<Longrightarrow> build_report m d b j = Inl (KeyError ''issue'')"
  by (simp add: build_report_def section_by_def getitem_def seq_def)


text \<open>
  C9. On a dataset where no detector flags any row, validate_dataset raises KeyError
  for the column issue while it builds the report, since the flagged-row frame is
  still the empty frame without columns; it returns neither an empty collection nor
  a report. A dataset without numeric columns, missing cells or repeated rows is one.
\<close>

theorem report_raises_when_nothing_flagged:
  assumes "nothing_flagged sk ev (normalize file) src"
  shows "validate_dataset sk ev file src = Inl (KeyError ''issue'')"
proof -
  let ?df = "normalize file"
  let ?s = "\<lparr>bad_rows = DataFrame, issues_summary = []\<rparr>"
  from assms have rb: "rule_based ?df = ?s"
    by (intro rule_based_nothing) (simp_all add: nothing_flagged_def)
  from assms have ml: "ml_step sk ev ?df ?s = Inr ?s"
    by (auto simp: nothing_flagged_def ml_step_def seq_def flag_empty split: sum.splits)
  from assms have "\<exists>v. json_step ?df src ?s = Inr (v, ?s)"
    by (cases src) (auto simp: nothing_flagged_def json_step_def seq_def split: sum.splits)
  then obtain v where v: "json_step ?df src ?s = Inr (v, ?s)" by blast
  have c: "''issue'' \<notin> set (columns DataFrame)" by (simp add: DataFrame_def)
  show ?thesis
    by (simp add: validate_dataset_def Let_def rb ml v seq_def build_report_KeyError [OF c])
qed

theorem report_raises_when_nothing_flagged_witness:
  "nothing_flagged sk_quiet ev0 (normalize clean_names) NoPath \<and>
   numeric_cols (normalize clean_names) = [] \<and>
   validate_dataset sk_quiet ev0 clean_names NoPath = Inl (KeyError ''issue'')"
proof -
  have n: "nothing_flagged sk_quiet ev0 (normalize clean_names) NoPath"
    by (simp add: clean_names_def nothing_flagged_def normalize_def missing_rows_def select_def
          empty_def duplicates_def select_mask_def duplicated_def is_space_def numeric_cols_def
          cat_cols_def select_dtypes_def invalid_category_def cell_at_def)
  have c: "numeric_cols (normalize clean_names) = []"
    by (simp add: clean_names_def normalize_def numeric_cols_def select_dtypes_def)
  show ?thesis
    using report_raises_when_nothing_flagged [OF n] n c by simp
qed

text \<open>
  C8. validate_dataset is deterministic: its result is a function of the dataset and
  the rule set alone. The isolation forest is always given the seed 42, so the state
  of the process-wide random generator, the only input that can differ between two
  runs on the same data, does not reach the result; flagged rows, issue counts and
  their order are the same in both runs.
\<close>

theorem validate_dataset_deterministic:
  "validate_dataset sk ev1 file src = validate_dataset sk ev2 file src"
proof -
  have "ml_outliers sk ev1 df = ml_outliers sk ev2 df" for df
    by (simp add: ml_outliers_def IsolationForest_fit_predict_def)
  then have "ml_step sk ev1 df st = ml_step sk ev2 df st" for df st
    by (simp add: ml_step_def)
  then show ?thesis
    by (simp add: validate_dataset_def)
qed

text \<open>The definitions a concrete run unfolds.\<close>

lemmas model_defs =
  validate_dataset_def rule_based_def missing_step_def duplicate_step_def negative_step_def
  outlier_step_def category_step_def ml_step_def json_step_def flag_def
  missing_rows_def duplicates_def duplicated_def neg_def outliers_def invalid_category_def
  numeric_cols_def cat_cols_def select_dtypes_def normalize_def select_def select_mask_def
  assign_issue_def concat_frames_def reindex_def cell_at_def empty_def len_def DataFrame_def
  seq_def is_space_def build_report_def section_by_def getitem_def generate_html_section_def
  column_def ml_df_def project_def dropna_def ml_outliers_def drop_duplicates_def
  IsolationForest_fit_predict_def LocalOutlierFactor_fit_predict_def
  is_negative_def is_outlier_def col_values_def mean_def std_def MAX_DISPLAY_ROWS_def
  apply_json_rules_def check_min_def check_max_def check_allowed_def emit_def

lemma dict_set_keys: "fst ` set (dict_set k v d) = insert k (fst ` set d)"
proof (induction d)
  case Nil
  then show ?case by simp
next
  case (Cons p d)
  then show ?case by (cases p) (simp add: insert_commute)
qed






lemma validate_dataset_unfold:
  "validate_dataset sk ev file src =
     seq (ml_step sk ev (normalize file) (rule_based (normalize file))) (\<lambda>st.
     seq (json_step (normalize file) src st) (\<lambda>(json_rows, st').
     seq (build_report (missing_rows (normalize file)) (duplicates (normalize file))
            (bad_rows st') json_rows) (\<lambda>report.
       Inr (bad_rows st', report, issues_summary st'))))"
  by (simp add: validate_dataset_def Let_def)



lemma ml_step_skipped:
  "numeric_cols df = [] \<or> empty (ml_df df) \<Longrightarrow> ml_step sk ev df st = Inr st"
  by (auto simp: ml_step_def)

lemma ml_outliers_fails:
  assumes "IsolationForest_fit_predict sk ev (1 / 100) (Some 42) (ml_df df) = Inl e \<or>
     (\<exists>l. IsolationForest_fit_predict sk ev (1 / 100) (Some 42) (ml_df df) = Inr l \<and>
          LocalOutlierFactor_fit_predict sk 20 (1 / 100) (ml_df df) = Inl e)"
  shows "ml_outliers sk ev df = Inl e"
  using assms by (auto simp: ml_outliers_def seq_def)

text \<open>
  C2, as the code has it. When the dataset has no numeric column, or no row whose
  numeric cells are all present, the anomaly detector is skipped: it adds no flagged
  row and no entry ML Anomalies, and the run is the same whatever the two algorithms
  would do. Nothing catches what the algorithms raise: when one of them cannot run on
  a non-empty input, its error ends validate_dataset.
\<close>

theorem anomaly_detector_skipped_or_raises:
  "(numeric_cols (normalize file) = [] \<or> empty (ml_df (normalize file)) \<longrightarrow>
      ml_step sk ev (normalize file) st = Inr st \<and>
      validate_dataset sk ev file src = validate_dataset sk' ev file src) \<and>
   (numeric_cols (normalize file) \<noteq> [] \<and> \<not> empty (ml_df (normalize file)) \<and>
    (IsolationForest_fit_predict sk ev (1 / 100) (Some 42) (ml_df (normalize file)) = Inl e \<or>
     (\<exists>l. IsolationForest_fit_predict sk ev (1 / 100) (Some 42) (ml_df (normalize file)) = Inr l \<and>
          LocalOutlierFactor_fit_predict sk 20 (1 / 100) (ml_df (normalize file)) = Inl e))
    \<longrightarrow> validate_dataset sk ev file src = Inl e)"
proof -
  let ?df = "normalize file"
  have a: "ml_step sk ev ?df st = Inr st \<and>
           validate_dataset sk ev file src = validate_dataset sk' ev file src"
    if "numeric_cols ?df = [] \<or> empty (ml_df ?df)"
    using ml_step_skipped [OF that] by (simp add: validate_dataset_unfold)
  have b: "validate_dataset sk ev file src = Inl e"
    if "numeric_cols ?df \<noteq> []" "\<not> empty (ml_df ?df)"
      and "IsolationForest_fit_predict sk ev (1 / 100) (Some 42) (ml_df ?df) = Inl e \<or>
        (\<exists>l. IsolationForest_fit_predict sk ev (1 / 100) (Some 42) (ml_df ?df) = Inr l \<and>
             LocalOutlierFactor_fit_predict sk 20 (1 / 100) (ml_df ?df) = Inl e)"
  proof -
    have "ml_step sk ev ?df (rule_based ?df) = Inl e"
      using that(1,2) ml_outliers_fails [OF that(3)] by (simp add: ml_step_def seq_def)
    then show ?thesis by (simp add: validate_dataset_unfold seq_def)
  qed
  show ?thesis using a b by blast
qed

theorem anomaly_detector_skipped_or_raises_witness:
  "ml_step sk_small ev0 (normalize with_gap) (rule_based (normalize with_gap)) =
     Inr (rule_based (normalize with_gap)) \<and>
   validate_dataset sk_small ev0 with_gap NoPath = validate_dataset sk_first ev0 with_gap NoPath \<and>
   validate_dataset sk_small ev0 one_row NotFound = Inl ValueError"
proof -
  have n: "numeric_cols (normalize with_gap) = []"
    by (simp add: with_gap_def normalize_def numeric_cols_def select_dtypes_def)
  have m: "numeric_cols (normalize one_row) \<noteq> [] \<and> \<not> empty (ml_df (normalize one_row))"
    by (simp add: one_row_def model_defs)
  have l: "\<exists>l. IsolationForest_fit_predict sk_small ev0 (1 / 100) (Some 42) (ml_df (normalize one_row)) = Inr l \<and>
          LocalOutlierFactor_fit_predict sk_small 20 (1 / 100) (ml_df (normalize one_row)) = Inl ValueError"
    by (simp add: one_row_def sk_small_def all_inliers_def model_defs)
  show ?thesis
    using anomaly_detector_skipped_or_raises
            [of with_gap sk_small ev0 "rule_based (normalize with_gap)" NoPath sk_first ValueError]
          anomaly_detector_skipped_or_raises
            [of one_row sk_small ev0 "rule_based (normalize one_row)" NotFound sk_first ValueError]
          n m l
    by blast
qed

text \<open>
  The claim fails as stated: on a dataset with a single row the local-outlier scorer
  cannot run, and the run raises its error instead of going on without the detector.
\<close>

theorem anomaly_detector_failure_counterexample:
  "LocalOutlierFactor_fit_predict sk_small 20 (1 / 100) (ml_df (normalize one_row)) = Inl ValueError \<and>
   validate_dataset sk_small ev0 one_row NoPath = Inl ValueError"
  by (simp add: one_row_def sk_small_def all_inliers_def model_defs Let_def List.map_filter_def)

section \<open>The three-sigma outlier detector\<close>















section \<open>Issue Counts\<close>

lemma dict_set_append: "k \<notin> fst ` set d \<Longrightarrow> dict_set k v d = d @ [(k, v)]"
  by (induction d) auto

lemma summary_flag:
  "issues_summary (flag key label found st) =
     (if empty found then issues_summary st else dict_set key (len found) (issues_summary st))"
  by (simp add: flag_def)

lemma fold_flag_summary:
  assumes "distinct cs" "inj_on key (set cs)"
    and "\<forall>c\<in>set cs. key c \<notin> fst ` set (issues_summary st)"
  shows "issues_summary (fold (\<lambda>c. flag (key c) (label c) (found c)) cs st) =
           issues_summary st @
           map (\<lambda>c. (key c, len (found c))) (filter (\<lambda>c. \<not> empty (found c)) cs)"
  using assms
proof (induction cs arbitrary: st)
  case Nil
  then show ?case by simp
next
  case (Cons c cs)
  let ?st = "flag (key c) (label c) (found c) st"
  have k: "key c \<notin> fst ` set (issues_summary st)" using Cons.prems(3) by simp
  have new: "\<forall>c'\<in>set cs. key c' \<noteq> key c"
    using Cons.prems(1,2) by (auto simp: inj_on_def)
  have out: "\<forall>c'\<in>set cs. key c' \<notin> fst ` set (issues_summary ?st)"
    using Cons.prems(3) new by (auto simp: summary_flag dict_set_keys)
  have "issues_summary (fold (\<lambda>c. flag (key c) (label c) (found c)) cs ?st) =
          issues_summary ?st @
          map (\<lambda>c. (key c, len (found c))) (filter (\<lambda>c. \<not> empty (found c)) cs)"
    using Cons.prems(1,2) out by (intro Cons.IH) auto
  then show ?case
    using k by (simp add: summary_flag dict_set_append)
qed


lemma empty_iff_len:
  "columns fr \<noteq> [] \<Longrightarrow> empty fr = (len fr = 0)"
  by (simp add: empty_def len_def)

lemma columns_select [simp]: "columns (select df p) = columns df"
  by (simp add: select_def)

lemma columns_select_mask [simp]: "columns (select_mask df m) = columns df"
  by (simp add: select_mask_def)

lemma filter_positive_map:
  "filter (\<lambda>(k, n). 0 < n) (map (\<lambda>c. (key c, len (found c))) cs) =
     map (\<lambda>c. (key c, len (found c))) (filter (\<lambda>c. 0 < len (found c)) cs)"
  by (induction cs) simp_all

lemma distinct_select_dtypes: "distinct (columns df) \<Longrightarrow> distinct (select_dtypes incl df)"
  unfolding select_dtypes_def
  by (intro distinct_map_filter) (simp add: map_fst_zip_take)

lemma rule_based_summary:
  assumes d: "distinct (columns df)" and ne: "columns df \<noteq> []"
  shows "issues_summary (rule_based df) =
     filter (\<lambda>(k, n). 0 < n)
       ([(''Missing Values'', len (missing_rows df)), (''Duplicate Rows'', len (duplicates df))] @
        map (\<lambda>c. (''Negative Values ('' @ c @ '')'', len (neg df c))) (numeric_cols df) @
        map (\<lambda>c. (''Outliers ('' @ c @ '')'', len (outliers df c))) (numeric_cols df) @
        map (\<lambda>c. (''Invalid Categories ('' @ c @ '')'', len (invalid_category df c))) (cat_cols df))"
proof -
  let ?s0 = "\<lparr>bad_rows = DataFrame, issues_summary = []\<rparr>"
  let ?s1 = "duplicate_step df (missing_step df ?s0)"
  let ?s2 = "fold (negative_step df) (numeric_cols df) ?s1"
  let ?s3 = "fold (outlier_step df) (numeric_cols df) ?s2"
  let ?s4 = "fold (category_step df) (cat_cols df) ?s3"
  have e: "(\<not> empty (missing_rows df)) = (0 < len (missing_rows df))"
      "(\<not> empty (duplicates df)) = (0 < len (duplicates df))"
      "\<And>c. (\<not> empty (neg df c)) = (0 < len (neg df c))"
      "\<And>c. (\<not> empty (outliers df c)) = (0 < len (outliers df c))"
      "\<And>c. (\<not> empty (invalid_category df c)) = (0 < len (invalid_category df c))"
    using ne
    by (simp_all add: empty_iff_len missing_rows_def duplicates_def neg_def outliers_def
          invalid_category_def)
  have dn: "distinct (numeric_cols df)" and dc: "distinct (cat_cols df)"
    using d by (simp_all add: numeric_cols_def cat_cols_def distinct_select_dtypes)
  have 1: "issues_summary ?s1 =
      filter (\<lambda>(k, n). 0 < n)
        [(''Missing Values'', len (missing_rows df)), (''Duplicate Rows'', len (duplicates df))]"
    using e(1,2) by (auto simp: duplicate_step_def missing_step_def summary_flag)
  have k1: "fst ` set (issues_summary ?s1) \<subseteq> {''Missing Values'', ''Duplicate Rows''}"
    unfolding 1 by auto
  have 2: "issues_summary ?s2 = issues_summary ?s1 @
      map (\<lambda>c. (''Negative Values ('' @ c @ '')'', len (neg df c)))
        (filter (\<lambda>c. 0 < len (neg df c)) (numeric_cols df))"
    unfolding negative_step_def e(3) [symmetric]
    using dn k1 by (intro fold_flag_summary) (auto simp: inj_on_def)
  have k2: "fst ` set (issues_summary ?s2) \<subseteq>
      {''Missing Values'', ''Duplicate Rows''} \<union>
      (\<lambda>c. ''Negative Values ('' @ c @ '')'') ` set (numeric_cols df)"
    unfolding 2 using k1 by auto
  have 3: "issues_summary ?s3 = issues_summary ?s2 @
      map (\<lambda>c. (''Outliers ('' @ c @ '')'', len (outliers df c)))
        (filter (\<lambda>c. 0 < len (outliers df c)) (numeric_cols df))"
    unfolding outlier_step_def e(4) [symmetric]
    using dn k2 by (intro fold_flag_summary) (auto simp: inj_on_def)
  have k3: "fst ` set (issues_summary ?s3) \<subseteq>
      {''Missing Values'', ''Duplicate Rows''} \<union>
      (\<lambda>c. ''Negative Values ('' @ c @ '')'') ` set (numeric_cols df) \<union>
      (\<lambda>c. ''Outliers ('' @ c @ '')'') ` set (numeric_cols df)"
    unfolding 3 using k2 by auto
  have 4: "issues_summary ?s4 = issues_summary ?s3 @
      map (\<lambda>c. (''Invalid Categories ('' @ c @ '')'', len (invalid_category df c)))
        (filter (\<lambda>c. 0 < len (invalid_category df c)) (cat_cols df))"
    unfolding category_step_def e(5) [symmetric]
    using dc k3 by (intro fold_flag_summary) (auto simp: inj_on_def)
  show ?thesis
    unfolding rule_based_def 4 3 2 1
    by (simp only: filter_append filter_positive_map append_assoc)
qed


lemma columns_assign_issue: "columns (assign_issue label fr) \<noteq> []"
  by (auto simp: assign_issue_def)

lemma columns_concat_frames:
  "columns (concat_frames a b) = columns a @ filter (\<lambda>c. c \<notin> set (columns a)) (columns b)"
  by (simp add: concat_frames_def Let_def)

lemma columns_ml_outliers:
  "ml_outliers sk ev df = Inr found \<Longrightarrow> columns found = numeric_cols df"
  by (auto simp: ml_outliers_def seq_def drop_duplicates_def columns_concat_frames ml_df_def
        dropna_def project_def split: sum.splits)

lemma ml_step_summary:
  assumes "ml_step sk ev df st = Inr st'"
  shows "issues_summary st' =
           (if 0 < ml_count sk ev df
            then dict_set ''ML Anomalies'' (ml_count sk ev df) (issues_summary st)
            else issues_summary st)"
proof (cases "numeric_cols df \<noteq> [] \<and> \<not> empty (ml_df df)")
  case False
  with assms show ?thesis by (auto simp: ml_step_def ml_count_def)
next
  case True
  with assms obtain found where f: "ml_outliers sk ev df = Inr found"
    and st': "st' = flag ''ML Anomalies'' ''ML_anomaly'' found st"
    by (auto simp: ml_step_def seq_def split: sum.splits)
  from True columns_ml_outliers [OF f] have "columns found \<noteq> []" by simp
  then have "empty found = (len found = 0)" by (rule empty_iff_len)
  with True f st' show ?thesis by (simp add: ml_count_def summary_flag)
qed

lemma emit_columns:
  "rows v \<noteq> [] \<longrightarrow> columns v \<noteq> [] \<Longrightarrow>
     rows (emit label invalid v) \<noteq> [] \<longrightarrow> columns (emit label invalid v) \<noteq> []"
  using columns_assign_issue [of label invalid]
  by (auto simp: emit_def columns_concat_frames filter_empty_conv)

lemma check_columns:
  assumes "rows v \<noteq> [] \<longrightarrow> columns v \<noteq> []"
  shows "check_min df col r v = Inr v' \<Longrightarrow> rows v' \<noteq> [] \<longrightarrow> columns v' \<noteq> []"
    and "check_max df col r v = Inr v' \<Longrightarrow> rows v' \<noteq> [] \<longrightarrow> columns v' \<noteq> []"
    and "check_allowed df col r v = Inr v' \<Longrightarrow> rows v' \<noteq> [] \<longrightarrow> columns v' \<noteq> []"
  using assms emit_columns [OF assms]
  by (auto simp: check_min_def check_max_def check_allowed_def seq_def
        split: option.splits sum.splits)

lemma rules_loop_columns:
  "rules_loop df rules v = Inr v' \<Longrightarrow> rows v \<noteq> [] \<longrightarrow> columns v \<noteq> [] \<Longrightarrow>
     rows v' \<noteq> [] \<longrightarrow> columns v' \<noteq> []"
proof (induction df rules v rule: rules_loop.induct)
  case (1 df violations)
  then show ?case by simp
next
  case (2 df col r rest violations)
  show ?case
  proof (cases "col \<in> set (columns df)")
    case False
    with 2 show ?thesis by simp
  next
    case True
    with "2.prems"(1) obtain v1 v2 v3 where
      c1: "check_min df col r violations = Inr v1" and
      c2: "check_max df col r v1 = Inr v2" and
      c3: "check_allowed df col r v2 = Inr v3" and
      l: "rules_loop df rest v3 = Inr v'"
      by (auto simp: seq_def split: sum.splits)
    from check_columns(1) [OF "2.prems"(2) c1] have i1: "rows v1 \<noteq> [] \<longrightarrow> columns v1 \<noteq> []" .
    from check_columns(2) [OF i1 c2] have i2: "rows v2 \<noteq> [] \<longrightarrow> columns v2 \<noteq> []" .
    from check_columns(3) [OF i2 c3] have i3: "rows v3 \<noteq> [] \<longrightarrow> columns v3 \<noteq> []" .
    from "2.IH"(2) [OF _ l i3] True show ?thesis by simp
  qed
qed

lemma apply_json_rules_empty:
  "apply_json_rules df rules = Inr v \<Longrightarrow> empty v = (len v = 0)"
  using rules_loop_columns [of df rules DataFrame v]
  by (auto simp: apply_json_rules_def DataFrame_def empty_def len_def)

lemma json_step_summary:
  assumes "json_step df src st = Inr (jr, st')"
  shows "issues_summary st' =
           (if 0 < json_count df src
            then dict_set ''JSON Rule Violations'' (json_count df src) (issues_summary st)
            else issues_summary st)"
proof (cases src)
  case (Loaded rules)
  with assms have a: "apply_json_rules df rules = Inr jr"
    by (auto simp: json_step_def seq_def split: sum.splits)
  from apply_json_rules_empty [OF a] assms Loaded a show ?thesis
    by (auto simp: json_step_def seq_def json_count_def)
qed (use assms in \<open>auto simp: json_step_def seq_def json_count_def\<close>)


lemma columns_normalize [simp]: "columns (normalize file) = columns file"
  by (simp add: normalize_def)

lemma validate_dataset_returns:
  assumes "validate_dataset sk ev file src = Inr (bad, rep, summ)"
  obtains st jr st' where
    "ml_step sk ev (normalize file) (rule_based (normalize file)) = Inr st"
    "json_step (normalize file) src st = Inr (jr, st')"
    "build_report (missing_rows (normalize file)) (duplicates (normalize file))
       (bad_rows st') jr = Inr rep"
    "bad = bad_rows st'" "summ = issues_summary st'"
  using assms
  by (auto simp: validate_dataset_unfold seq_def split: sum.splits)

lemma distinct_category_counts:
  assumes "distinct (columns df)"
  shows "distinct (map fst (category_counts sk ev df src))"
proof -
  have dn: "distinct (numeric_cols df)" and dc: "distinct (cat_cols df)"
    using assms by (simp_all add: numeric_cols_def cat_cols_def distinct_select_dtypes)
  show ?thesis
    using dn dc
    by (auto simp: category_counts_def distinct_map inj_on_def comp_def)
qed

text \<open>
  C7. When validate_dataset returns, the Issue Counts mapping holds exactly the
  categories whose count is strictly positive, each with its count, in the fixed
  order: Missing Values, Duplicate Rows, Negative Values per numeric column, Outliers
  per numeric column, Invalid Categories per text column (each in column order), ML
  Anomalies, JSON Rule Violations. The category names are pairwise distinct.
\<close>

theorem issue_counts_categories:
  assumes "distinct (columns file)" "columns file \<noteq> []"
    and "validate_dataset sk ev file src = Inr (bad, rep, summ)"
  shows "summ = filter (\<lambda>(k, n). 0 < n) (category_counts sk ev (normalize file) src) \<and>
         distinct (map fst (category_counts sk ev (normalize file) src)) \<and>
         (\<forall>k. k \<in> fst ` set summ \<longleftrightarrow>
               (\<exists>n. (k, n) \<in> set (category_counts sk ev (normalize file) src) \<and> 0 < n))"
proof -
  let ?df = "normalize file"
  let ?A = "[(''Missing Values'', len (missing_rows ?df)), (''Duplicate Rows'', len (duplicates ?df))] @
        map (\<lambda>c. (''Negative Values ('' @ c @ '')'', len (neg ?df c))) (numeric_cols ?df) @
        map (\<lambda>c. (''Outliers ('' @ c @ '')'', len (outliers ?df c))) (numeric_cols ?df) @
        map (\<lambda>c. (''Invalid Categories ('' @ c @ '')'', len (invalid_category ?df c))) (cat_cols ?df)"
  let ?P = "\<lambda>(k, n). 0 < (n::nat)"
  from assms(3) obtain st jr st' where
    ml: "ml_step sk ev ?df (rule_based ?df) = Inr st" and
    js: "json_step ?df src st = Inr (jr, st')" and
    summ: "summ = issues_summary st'"
    by (rule validate_dataset_returns)
  have rb: "issues_summary (rule_based ?df) = filter ?P ?A"
    using assms(1,2) by (intro rule_based_summary) simp_all
  have kA: "''ML Anomalies'' \<notin> fst ` set ?A" "''JSON Rule Violations'' \<notin> fst ` set ?A"
    by auto
  have sub: "fst ` set (filter ?P ?A) \<subseteq> fst ` set ?A" by auto
  have k1: "''ML Anomalies'' \<notin> fst ` set (issues_summary (rule_based ?df))"
    unfolding rb using kA(1) sub by blast
  have s1: "issues_summary st =
      filter ?P ?A @ filter ?P [(''ML Anomalies'', ml_count sk ev ?df)]"
    using ml_step_summary [OF ml] k1 by (simp add: dict_set_append rb)
  have k2: "''JSON Rule Violations'' \<notin> fst ` set (issues_summary st)"
    unfolding s1 using kA(2) sub by auto
  have s2: "issues_summary st' =
      issues_summary st @ filter ?P [(''JSON Rule Violations'', json_count ?df src)]"
    using json_step_summary [OF js] k2 by (simp add: dict_set_append)
  have two: "filter ?P [a, b] = filter ?P [a] @ filter ?P [b]" for a b
    by simp
  have eq: "summ = filter ?P (category_counts sk ev ?df src)"
    unfolding summ s2 s1 category_counts_def
    by (simp only: filter_append append_assoc two [of "(''ML Anomalies'', ml_count sk ev ?df)"])
  have d: "distinct (map fst (category_counts sk ev ?df src))"
    using assms(1) by (intro distinct_category_counts) simp
  have "\<forall>k. k \<in> fst ` set summ \<longleftrightarrow>
          (\<exists>n. (k, n) \<in> set (category_counts sk ev ?df src) \<and> 0 < n)"
    unfolding eq by force
  with eq d show ?thesis by blast
qed

theorem issue_counts_categories_witness:
  "filter (\<lambda>(k, n). 0 < n) (category_counts sk_quiet ev0 (normalize with_gap) NoPath) =
     [(''Missing Values'', 1), (''Invalid Categories (city)'', 1)] \<and>
   distinct (map fst (category_counts sk_quiet ev0 (normalize with_gap) NoPath))"
proof -
  have "\<exists>rep. validate_dataset sk_quiet ev0 with_gap NoPath =
      Inr (\<lparr>columns = [''name'', ''city'', ''issue''],
            rows = [[StrV ''ann'', NaN, StrV ''missing''],
                    [StrV ''ann'', NaN, StrV ''city_invalid_category'']]\<rparr>,
           rep,
           [(''Missing Values'', 1), (''Invalid Categories (city)'', 1)])"
    by (simp add: with_gap_def model_defs Let_def)
  then obtain rep where v: "validate_dataset sk_quiet ev0 with_gap NoPath =
      Inr (\<lparr>columns = [''name'', ''city'', ''issue''],
            rows = [[StrV ''ann'', NaN, StrV ''missing''],
                    [StrV ''ann'', NaN, StrV ''city_invalid_category'']]\<rparr>,
           rep,
           [(''Missing Values'', 1), (''Invalid Categories (city)'', 1)])"
    by blast
  have d: "distinct (columns with_gap)" "columns with_gap \<noteq> []"
    by (simp_all add: with_gap_def)
  from issue_counts_categories [OF d v] show ?thesis by simp
qed

section \<open>Rows as mappings\<close>



lemma cell_at_absent: "c \<notin> set cols \<Longrightarrow> cell_at cols r c = NaN"
proof -
  assume "c \<notin> set cols"
  then have "c \<notin> fst ` set (zip cols r)" by (auto dest: set_zip_leftD)
  then have "map_of (zip cols r) c = None" by (simp add: map_of_eq_None_iff)
  then show ?thesis by (simp add: cell_at_def)
qed

lemma cell_at_reindex:
  "cell_at new (reindex old new r) c = (if c \<in> set new then cell_at old r c else NaN)"
  by (simp add: cell_at_def reindex_def map_of_zip_map)

lemma cell_at_reindex_super:
  assumes "set old \<subseteq> set new"
  shows "cell_at new (reindex old new r) = cell_at old r"
proof (rule ext)
  fix c
  show "cell_at new (reindex old new r) c = cell_at old r c"
  proof (cases "c \<in> set new")
    case True
    then show ?thesis by (simp add: cell_at_reindex)
  next
    case False
    with assms have "c \<notin> set old" by auto
    with False show ?thesis by (simp add: cell_at_reindex cell_at_absent)
  qed
qed



lemma cell_at_set_issue:
  "length r = length cols \<Longrightarrow>
     cell_at (if ''issue'' \<in> set cols then cols else cols @ [''issue'']) (set_issue cols v r) c =
       (if c = ''issue'' then v else cell_at cols r c)"
  by (induction cols r rule: list_induct2') (auto simp: cell_at_def)


lemma length_set_issue:
  "length r = length cols \<Longrightarrow>
     length (set_issue cols v r) = length (if ''issue'' \<in> set cols then cols else cols @ [''issue''])"
  by (induction cols r rule: list_induct2') auto

lemma row_lengths_assign_issue: "row_lengths fr \<Longrightarrow> row_lengths (assign_issue label fr)"
  using length_set_issue by (auto simp: row_lengths_def assign_issue_def)



lemma row_lengths_select: "row_lengths df \<Longrightarrow> row_lengths (select df p)"
  by (auto simp: row_lengths_def select_def)

lemma row_lengths_select_mask: "row_lengths df \<Longrightarrow> row_lengths (select_mask df m)"
  by (auto simp: row_lengths_def select_mask_def dest: set_zip_leftD)











lemma view_list_concat_frames:
  "view_list (concat_frames a b) = view_list a @ view_list b"
proof -
  let ?new = "columns a @ filter (\<lambda>c. c \<notin> set (columns a)) (columns b)"
  have a: "cell_at ?new (reindex (columns a) ?new r) = cell_at (columns a) r" for r
    by (rule cell_at_reindex_super) auto
  have b: "cell_at ?new (reindex (columns b) ?new r) = cell_at (columns b) r" for r
    by (rule cell_at_reindex_super) auto
  show ?thesis
    by (simp add: view_list_def concat_frames_def Let_def comp_def a b)
qed

lemma view_list_assign_issue:
  assumes rl: "row_lengths fr"
  shows "view_list (assign_issue label fr) =
           map (\<lambda>f. f(''issue'' := StrV label)) (view_list fr)"
proof -
  have "cell_at (columns (assign_issue label fr)) (set_issue (columns fr) (StrV label) r) =
        (cell_at (columns fr) r)(''issue'' := StrV label)" if "r \<in> set (rows fr)" for r
    using cell_at_set_issue [of r "columns fr" "StrV label"] rl that
    by (auto simp: assign_issue_def row_lengths_def fun_eq_iff)
  then have "map (cell_at (columns (assign_issue label fr))) (rows (assign_issue label fr)) =
      map (\<lambda>r. (cell_at (columns fr) r)(''issue'' := StrV label)) (rows fr)"
    unfolding assign_issue_def frame.simps list.map_comp
    by (intro map_cong refl) (simp add: assign_issue_def)
  then show ?thesis by (simp add: view_list_def comp_def)
qed

lemma select_mask_map: "select_mask df (map Q (rows df)) = select df Q"
proof -
  have "map fst (filter snd (zip xs (map Q xs))) = filter Q xs" for xs :: "cell list list"
    by (induction xs) simp_all
  then show ?thesis by (simp add: select_mask_def select_def)
qed

lemma cmp_series_Inr:
  "cmp_series ord cells m = Inr msk \<Longrightarrow>
     msk = map (\<lambda>c. case value_of c of Some x \<Rightarrow> ord x m | None \<Rightarrow> False) cells"
proof (induction cells arbitrary: msk)
  case Nil
  then show ?case by simp
next
  case (Cons c cs)
  then show ?case
    by (cases c) (auto simp: seq_def split: sum.splits)
qed

lemma cmp_series_total:
  "\<not> list_ex is_text cells \<Longrightarrow> \<exists>msk. cmp_series ord cells m = Inr msk"
proof (induction cells)
  case Nil
  then show ?case by simp
next
  case (Cons c cs)
  then show ?case by (cases c) (auto simp: seq_def)
qed

lemma cell_isin_member_of: "cell_isin allowed c = member_of allowed c"
  by (cases c) (simp_all add: member_of_def)

lemma view_list_emit:
  assumes "row_lengths df" "c \<in> set (columns df)"
  shows "view_list (emit label (select df p) v) =
           view_list v @ map (\<lambda>row. labelled df (row, label)) (filter p (rows df))"
proof (cases "filter p (rows df) = []")
  case True
  then show ?thesis by (simp add: emit_def empty_def select_def)
next
  case False
  have rl: "row_lengths (select df p)" using assms(1) by (rule row_lengths_select)
  from assms(2) have "columns df \<noteq> []" by auto
  with False have "\<not> empty (select df p)" by (simp add: empty_def select_def)
  then show ?thesis
    by (simp add: emit_def view_list_concat_frames view_list_assign_issue [OF rl] labelled_def
          comp_def) (simp add: view_list_def select_def comp_def)
qed

lemma view_list_check_min:
  assumes "row_lengths df" "col \<in> set (columns df)" "check_min df col r v = Inr v'"
  shows "view_list v' = view_list v @ map (labelled df)
     (case rule_min r of None \<Rightarrow> []
      | Some m \<Rightarrow> map (\<lambda>row. (row, col @ ''_below_min''))
                    (filter (\<lambda>row. below m (cell_at (columns df) row col)) (rows df)))"
proof (cases "rule_min r")
  case None
  with assms(3) show ?thesis by (simp add: check_min_def)
next
  case (Some m)
  with assms(3) obtain msk where c: "cmp_series (<) (column df col) m = Inr msk"
    and v': "v' = emit (col @ ''_below_min'') (select_mask df msk) v"
    by (auto simp: check_min_def seq_def split: sum.splits)
  have "msk = map (\<lambda>row. below m (cell_at (columns df) row col)) (rows df)"
    using cmp_series_Inr [OF c] by (simp add: column_def below_def comp_def)
  then have "select_mask df msk = select df (\<lambda>row. below m (cell_at (columns df) row col))"
    by (simp add: select_mask_map)
  with v' Some show ?thesis
    by (simp add: view_list_emit [OF assms(1,2)] comp_def)
qed

lemma view_list_check_max:
  assumes "row_lengths df" "col \<in> set (columns df)" "check_max df col r v = Inr v'"
  shows "view_list v' = view_list v @ map (labelled df)
     (case rule_max r of None \<Rightarrow> []
      | Some m \<Rightarrow> map (\<lambda>row. (row, col @ ''_above_max''))
                    (filter (\<lambda>row. above m (cell_at (columns df) row col)) (rows df)))"
proof (cases "rule_max r")
  case None
  with assms(3) show ?thesis by (simp add: check_max_def)
next
  case (Some m)
  with assms(3) obtain msk where c: "cmp_series (>) (column df col) m = Inr msk"
    and v': "v' = emit (col @ ''_above_max'') (select_mask df msk) v"
    by (auto simp: check_max_def seq_def split: sum.splits)
  have "msk = map (\<lambda>row. above m (cell_at (columns df) row col)) (rows df)"
    using cmp_series_Inr [OF c] by (simp add: column_def above_def comp_def)
  then have "select_mask df msk = select df (\<lambda>row. above m (cell_at (columns df) row col))"
    by (simp add: select_mask_map)
  with v' Some show ?thesis
    by (simp add: view_list_emit [OF assms(1,2)] comp_def)
qed

lemma view_list_check_allowed:
  assumes "row_lengths df" "col \<in> set (columns df)" "check_allowed df col r v = Inr v'"
  shows "view_list v' = view_list v @ map (labelled df)
     (case rule_allowed r of None \<Rightarrow> []
      | Some allowed \<Rightarrow> map (\<lambda>row. (row, col @ ''_invalid_value''))
                    (filter (\<lambda>row. \<not> member_of allowed (cell_at (columns df) row col)) (rows df)))"
  using assms(3)
  by (cases "rule_allowed r")
     (auto simp: check_allowed_def view_list_emit [OF assms(1,2)] cell_isin_member_of comp_def)

lemma view_list_rules_loop:
  "row_lengths df \<Longrightarrow> rules_loop df rules v = Inr v' \<Longrightarrow>
     view_list v' = view_list v @ map (labelled df) (expected_violations df rules)"
proof (induction df rules v rule: rules_loop.induct)
  case (1 df violations)
  then show ?case by (simp add: expected_violations_def)
next
  case (2 df col r rest violations)
  show ?case
  proof (cases "col \<in> set (columns df)")
    case False
    with 2 show ?thesis by (simp add: expected_violations_def)
  next
    case True
    with "2.prems"(2) obtain v1 v2 v3 where
      c1: "check_min df col r violations = Inr v1" and
      c2: "check_max df col r v1 = Inr v2" and
      c3: "check_allowed df col r v2 = Inr v3" and
      l: "rules_loop df rest v3 = Inr v'"
      by (auto simp: seq_def split: sum.splits)
    have ih: "view_list v' = view_list v3 @ map (labelled df) (expected_violations df rest)"
      using "2.IH"(2) [OF _ "2.prems"(1) l] True by simp
    show ?thesis
      unfolding ih
        view_list_check_allowed [OF "2.prems"(1) True c3]
        view_list_check_max [OF "2.prems"(1) True c2]
        view_list_check_min [OF "2.prems"(1) True c1]
      using True by (simp add: expected_violations_def violations_of_def)
  qed
qed

lemma rules_loop_total:
  "comparable df rules \<Longrightarrow> \<exists>v'. rules_loop df rules v = Inr v'"
proof (induction df rules v rule: rules_loop.induct)
  case (1 df violations)
  then show ?case by simp
next
  case (2 df col r rest violations)
  from "2.prems" have rest: "comparable df rest" by (simp add: comparable_def)
  show ?case
  proof (cases "col \<in> set (columns df)")
    case False
    with "2.IH"(1) rest show ?thesis by simp
  next
    case True
    have "\<exists>v1. check_min df col r violations = Inr v1"
    proof (cases "rule_min r")
      case None
      then show ?thesis by (simp add: check_min_def)
    next
      case (Some m)
      with "2.prems" True have "\<not> list_ex is_text (column df col)"
        by (auto simp: comparable_def)
      from cmp_series_total [OF this, of "(<)" m] Some show ?thesis
        by (auto simp: check_min_def seq_def)
    qed
    then obtain v1 where c1: "check_min df col r violations = Inr v1" by blast
    have "\<exists>v2. check_max df col r v1 = Inr v2"
    proof (cases "rule_max r")
      case None
      then show ?thesis by (simp add: check_max_def)
    next
      case (Some m)
      with "2.prems" True have "\<not> list_ex is_text (column df col)"
        by (auto simp: comparable_def)
      from cmp_series_total [OF this, of "(>)" m] Some show ?thesis
        by (auto simp: check_max_def seq_def)
    qed
    then obtain v2 where c2: "check_max df col r v1 = Inr v2" by blast
    obtain v3 where c3: "check_allowed df col r v2 = Inr v3"
      by (cases "rule_allowed r") (auto simp: check_allowed_def)
    from "2.IH"(2) [OF _ rest, of v3] True obtain v' where "rules_loop df rest v3 = Inr v'"
      by auto
    with True c1 c2 c3 show ?thesis by (simp add: seq_def)
  qed
qed

section \<open>The declarative-rule detector\<close>

lemma view_list_DataFrame [simp]: "view_list DataFrame = []"
  by (simp add: view_list_def DataFrame_def)

lemma view_list_apply_json_rules:
  "row_lengths df \<Longrightarrow> apply_json_rules df rules = Inr v \<Longrightarrow>
     view_list v = map (labelled df) (expected_violations df rules)"
  using view_list_rules_loop [of df rules DataFrame v] by (simp add: apply_json_rules_def)

lemma price_example:
  assumes "rows df = [a, b, c]" "''price'' \<in> set (columns df)"
    and "value_of (cell_at (columns df) a ''price'') = Some (- 5)"
    and "value_of (cell_at (columns df) b ''price'') = Some 500"
    and "value_of (cell_at (columns df) c ''price'') = Some 2000"
  shows "expected_violations df price_rule = [(a, ''price_below_min''), (c, ''price_above_max'')]"
    and "comparable df price_rule"
proof -
  show "expected_violations df price_rule = [(a, ''price_below_min''), (c, ''price_above_max'')]"
    using assms
    by (simp add: expected_violations_def price_rule_def violations_of_def below_def above_def)
  have "\<not> is_text x" if "value_of x = Some y" for x y
    using that by (cases x) simp_all
  with assms(3,4,5) have "\<not> list_ex is_text (column df ''price'')"
    by (simp add: column_def assms(1))
  then show "comparable df price_rule"
    by (simp add: comparable_def price_rule_def)
qed

text \<open>
  C4. For each rule whose column the dataset has, apply_json_rules evaluates min, max
  and allowed independently and in this order: a row is emitted with the label
  <column>_below_min exactly when its value is strictly below the minimum, with
  <column>_above_max exactly when it is strictly above the maximum, and with
  <column>_invalid_value exactly when it is not in the allowed list; a row that violates
  several checks is emitted once for each. The detector returns whenever the compared
  columns hold no text. For the rule price: min 0, max 1000 and rows with price -5, 500
  and 2000, exactly two rows are flagged, the first as price_below_min and the third
  as price_above_max; the row with price 500 is not flagged.
\<close>

theorem declarative_rules:
  "(row_lengths df \<and> apply_json_rules df rules = Inr v \<longrightarrow>
      view_list v = map (labelled df) (expected_violations df rules)) \<and>
   (comparable df rules \<longrightarrow> (\<exists>v. apply_json_rules df rules = Inr v)) \<and>
   (rows df = [a, b, c] \<and> ''price'' \<in> set (columns df) \<and>
    value_of (cell_at (columns df) a ''price'') = Some (- 5) \<and>
    value_of (cell_at (columns df) b ''price'') = Some 500 \<and>
    value_of (cell_at (columns df) c ''price'') = Some 2000 \<longrightarrow>
      comparable df price_rule \<and>
      expected_violations df price_rule = [(a, ''price_below_min''), (c, ''price_above_max'')])"
  using view_list_apply_json_rules [of df rules v]
        rules_loop_total [of df rules DataFrame]
        price_example [of df a b c]
  by (simp add: apply_json_rules_def)

theorem declarative_rules_witness:
  "apply_json_rules prices price_rule =
     Inr \<lparr>columns = [''price'', ''issue''],
          rows = [[IntV (- 5), StrV ''price_below_min''], [IntV 2000, StrV ''price_above_max'']]\<rparr> \<and>
   expected_violations prices price_rule =
     [([IntV (- 5)], ''price_below_min''), ([IntV 2000], ''price_above_max'')] \<and>
   view_list \<lparr>columns = [''price'', ''issue''],
          rows = [[IntV (- 5), StrV ''price_below_min''], [IntV 2000, StrV ''price_above_max'']]\<rparr> =
     map (labelled prices) [([IntV (- 5)], ''price_below_min''), ([IntV 2000], ''price_above_max'')]"
proof -
  let ?v = "\<lparr>columns = [''price'', ''issue''],
          rows = [[IntV (- 5), StrV ''price_below_min''], [IntV 2000, StrV ''price_above_max'']]\<rparr>"
  have e: "apply_json_rules prices price_rule = Inr ?v"
    by (simp add: prices_def price_rule_def model_defs)
  have rl: "row_lengths prices" by (simp add: row_lengths_def prices_def)
  have p: "rows prices = [[IntV (- 5)], [IntV 500], [IntV 2000]]"
      "''price'' \<in> set (columns prices)"
      "value_of (cell_at (columns prices) [IntV (- 5)] ''price'') = Some (- 5)"
      "value_of (cell_at (columns prices) [IntV 500] ''price'') = Some 500"
      "value_of (cell_at (columns prices) [IntV 2000] ''price'') = Some 2000"
    by (simp_all add: prices_def cell_at_def)
  from declarative_rules [of prices price_rule ?v "[IntV (- 5)]" "[IntV 500]" "[IntV 2000]"] e rl p
  show ?thesis by simp
qed

section \<open>Where flagged rows come from\<close>



lemma row_lengths_normalize: "row_lengths file \<Longrightarrow> row_lengths (normalize file)"
  by (auto simp: row_lengths_def normalize_def)





section \<open>Flagged duplicates\<close>

lemma view_list_flag:
  assumes "row_lengths found"
  shows "view_list (bad_rows (flag key label found st)) =
           view_list (bad_rows st) @
           (if empty found then [] else map (\<lambda>f. f(''issue'' := StrV label)) (view_list found))"
  by (simp add: flag_def view_list_concat_frames view_list_assign_issue [OF assms])

lemma duplicate_step_flags:
  assumes rl: "row_lengths df" and ne: "columns df \<noteq> []"
  shows "view_list (bad_rows (duplicate_step df st)) =
           view_list (bad_rows st) @
           map (\<lambda>r. labelled df (r, ''duplicate'')) (rows (duplicates df))"
    and "issues_summary (duplicate_step df st) =
           (if rows (duplicates df) = [] then issues_summary st
            else dict_set ''Duplicate Rows'' (len (duplicates df)) (issues_summary st))"
proof -
  have rd: "row_lengths (duplicates df)"
    unfolding duplicates_def using rl by (rule row_lengths_select_mask)
  have e: "empty (duplicates df) = (rows (duplicates df) = [])"
    using ne by (simp add: empty_def duplicates_def)
  show "view_list (bad_rows (duplicate_step df st)) =
           view_list (bad_rows st) @
           map (\<lambda>r. labelled df (r, ''duplicate'')) (rows (duplicates df))"
    unfolding duplicate_step_def view_list_flag [OF rd] e
    by (simp add: view_list_def labelled_def duplicates_def comp_def)
  show "issues_summary (duplicate_step df st) =
           (if rows (duplicates df) = [] then issues_summary st
            else dict_set ''Duplicate Rows'' (len (duplicates df)) (issues_summary st))"
    by (simp add: duplicate_step_def summary_flag e)
qed

text \<open>
  C5. The duplicate-row detector marks a row exactly when an earlier row of the dataset
  is identical to it in all columns, so a first occurrence is never marked; on a
  dataset [A, A, A] it flags exactly two rows and on [A, B, A], with A and B not
  identical, exactly one. The rows it selects are the rows added to the flagged rows
  with the label duplicate, and their number is the count under Duplicate Rows.
\<close>

theorem duplicate_detector_flags_repeats:
  "length (duplicated df) = length (rows df) \<and>
   (\<forall>i<length (rows df). duplicated df ! i = (\<exists>j<i. same_row (rows df ! j) (rows df ! i))) \<and>
   (rows df = [A, A, A] \<longrightarrow> rows (duplicates df) = [A, A] \<and> len (duplicates df) = 2) \<and>
   (rows df = [A, B, A] \<and> \<not> same_row A B \<longrightarrow>
      rows (duplicates df) = [A] \<and> len (duplicates df) = 1) \<and>
   (row_lengths df \<and> columns df \<noteq> [] \<longrightarrow>
      view_list (bad_rows (duplicate_step df st)) =
        view_list (bad_rows st) @
        map (\<lambda>r. labelled df (r, ''duplicate'')) (rows (duplicates df)) \<and>
      issues_summary (duplicate_step df st) =
        (if rows (duplicates df) = [] then issues_summary st
         else dict_set ''Duplicate Rows'' (len (duplicates df)) (issues_summary st)))"
proof -
  have three: "rows df = [A, A, A] \<Longrightarrow> rows (duplicates df) = [A, A]"
    by (simp add: duplicates_def select_mask_def duplicated_def Let_def)
  have aba: "rows df = [A, B, A] \<Longrightarrow> \<not> same_row A B \<Longrightarrow> rows (duplicates df) = [A]"
    by (auto simp add: duplicates_def select_mask_def duplicated_def Let_def same_row_def)
  show ?thesis
    using three aba duplicate_step_flags [of df st]
    by (simp add: length_duplicated duplicated_nth len_def)
qed

theorem duplicate_detector_flags_repeats_witness:
  "rows (duplicates \<lparr>columns = [''id''], rows = [[IntV 7], [IntV 7], [IntV 7]],
                     dtypes = [Int64]\<rparr>) = [[IntV 7], [IntV 7]] \<and>
   rows (duplicates \<lparr>columns = [''id''], rows = [[IntV 7], [IntV 8], [IntV 7]],
                     dtypes = [Int64]\<rparr>) = [[IntV 7]] \<and>
   \<not> duplicated \<lparr>columns = [''id''], rows = [[IntV 7], [IntV 8], [IntV 7]],
                  dtypes = [Int64]\<rparr> ! 0 \<and>
   duplicate_step \<lparr>columns = [''id''], rows = [[IntV 7], [IntV 7], [IntV 7]], dtypes = [Int64]\<rparr>
       \<lparr>bad_rows = DataFrame, issues_summary = []\<rparr> =
     \<lparr>bad_rows = \<lparr>columns = [''id'', ''issue''],
                   rows = [[IntV 7, StrV ''duplicate''], [IntV 7, StrV ''duplicate'']]\<rparr>,
      issues_summary = [(''Duplicate Rows'', 2)]\<rparr>"
proof -
  have s: "duplicate_step \<lparr>columns = [''id''], rows = [[IntV 7], [IntV 7], [IntV 7]], dtypes = [Int64]\<rparr>
       \<lparr>bad_rows = DataFrame, issues_summary = []\<rparr> =
     \<lparr>bad_rows = \<lparr>columns = [''id'', ''issue''],
                   rows = [[IntV 7, StrV ''duplicate''], [IntV 7, StrV ''duplicate'']]\<rparr>,
      issues_summary = [(''Duplicate Rows'', 2)]\<rparr>"
    by (simp add: model_defs Let_def)
  show ?thesis
    using duplicate_detector_flags_repeats
          [of "\<lparr>columns = [''id''], rows = [[IntV 7], [IntV 7], [IntV 7]], dtypes = [Int64]\<rparr>"
              "[IntV 7]" "[IntV 8]" "\<lparr>bad_rows = DataFrame, issues_summary = []\<rparr>"]
        duplicate_detector_flags_repeats
          [of "\<lparr>columns = [''id''], rows = [[IntV 7], [IntV 8], [IntV 7]], dtypes = [Int64]\<rparr>"
              "[IntV 7]" "[IntV 8]" "\<lparr>bad_rows = DataFrame, issues_summary = []\<rparr>"]
        s
    by (simp add: same_row_def)
qed

text \<open>
  C10. Every source marker of a missing cell (empty string, NA, N/A, -, whitespace
  only) is read as a missing cell, and normalisation runs before the duplicate
  detector, where missing cells are equal to each other: when two rows of the file
  agree cell by cell, missing with missing however written and present cells equal,
  the later one is marked by the duplicate-row detector and is among the rows it flags
  with the label duplicate.
\<close>

theorem markers_collapse_before_duplicates:
  "(\<forall>s t. is_marker s \<and> is_marker t \<longrightarrow> agree (read_text s) (read_text t)) \<and>
   (\<forall>j i. j < i \<and> i < length (rows file) \<and> list_all2 agree (rows file ! j) (rows file ! i) \<longrightarrow>
      duplicated (normalize file) ! i \<and>
      rows (normalize file) ! i \<in> set (rows (duplicates (normalize file))) \<and>
      (row_lengths file \<and> columns file \<noteq> [] \<longrightarrow>
         labelled (normalize file) (rows (normalize file) ! i, ''duplicate'')
           \<in> views (bad_rows (duplicate_step (normalize file) st))))"
proof -
  have a: "agree (read_text s) (read_text t)" if "is_marker s" "is_marker t" for s t
    using that marker_is_missing by (simp add: agree_def)
  have b: "duplicated (normalize file) ! i \<and>
           rows (normalize file) ! i \<in> set (rows (duplicates (normalize file))) \<and>
           (row_lengths file \<and> columns file \<noteq> [] \<longrightarrow>
              labelled (normalize file) (rows (normalize file) ! i, ''duplicate'')
                \<in> views (bad_rows (duplicate_step (normalize file) st)))"
    if ji: "j < i" and il: "i < length (rows file)"
      and ag: "list_all2 agree (rows file ! j) (rows file ! i)" for j i
  proof -
    let ?n = "normalize file"
    have len: "length (rows ?n) = length (rows file)" by (simp add: normalize_def)
    have nth: "rows ?n ! k = map replace_blank (rows file ! k)" if "k < length (rows file)" for k
      using that by (simp add: normalize_def)
    have "same_row (rows ?n ! j) (rows ?n ! i)"
      using same_row_normalized [OF ag] nth ji il by simp
    then have d: "duplicated ?n ! i"
      using duplicated_nth [of i ?n] ji il len by auto
    have "(rows ?n ! i, duplicated ?n ! i) \<in> set (zip (rows ?n) (duplicated ?n))"
      using il len length_duplicated [of ?n] by (auto simp: in_set_zip)
    with d have m: "rows ?n ! i \<in> set (rows (duplicates ?n))"
      by (force simp: duplicates_def select_mask_def)
    have "labelled ?n (rows ?n ! i, ''duplicate'') \<in> views (bad_rows (duplicate_step ?n st))"
      if "row_lengths file" "columns file \<noteq> []"
    proof -
      have "row_lengths ?n" using that(1) by (rule row_lengths_normalize)
      moreover have "columns ?n \<noteq> []" using that(2) by simp
      ultimately show ?thesis
        using m by (simp add: views_def duplicate_step_flags(1))
    qed
    with d m show ?thesis by simp
  qed
  show ?thesis using a b by blast
qed

theorem markers_collapse_before_duplicates_witness:
  "agree (read_text ''NA'') (read_text ''  '') \<and>
   agree (read_text ''-'') (read_text ''N/A'') \<and>
   duplicated (normalize \<lparr>columns = [''name'', ''city''],
                 rows = [[StrV ''ann'', read_text ''NA''], [StrV ''ann'', read_text ''  '']],
                 dtypes = [Object, Object]\<rparr>) ! 1 \<and>
   rows (duplicates (normalize \<lparr>columns = [''name'', ''city''],
                 rows = [[StrV ''ann'', read_text ''NA''], [StrV ''ann'', read_text ''  '']],
                 dtypes = [Object, Object]\<rparr>)) = [[StrV ''ann'', NA]]"
proof -
  let ?f = "\<lparr>columns = [''name'', ''city''],
             rows = [[StrV ''ann'', read_text ''NA''], [StrV ''ann'', read_text ''  '']],
             dtypes = [Object, Object]\<rparr>"
  have m: "is_marker ''NA''" "is_marker ''  ''" "is_marker ''-''" "is_marker ''N/A''"
    by (simp_all add: is_marker_def is_space_def)
  have h: "(0::nat) < 1 \<and> 1 < length (rows ?f) \<and> list_all2 agree (rows ?f ! 0) (rows ?f ! 1)"
    by (simp add: agree_def read_text_def na_values_def STR_NA_VALUES_def is_space_def)
  have r: "rows (duplicates (normalize ?f)) = [[StrV ''ann'', NA]]"
    by (simp add: duplicates_def select_mask_def duplicated_def normalize_def Let_def
          read_text_def na_values_def STR_NA_VALUES_def is_space_def)
  show ?thesis
    using markers_collapse_before_duplicates [of ?f] m h r by blast
qed

end
